theory Spec2Isabelle
  imports Complex_Main
begin

section \<open>Reconciling a price feed against the entity store (src/db/CRUD.py)\<close>

text \<open>
  The development embeds \<^verbatim>\<open>update_db\<close> and \<^verbatim>\<open>get_all_products\<close> of
  \<^verbatim>\<open>src/db/CRUD.py\<close> together with the three tables of
  \<^verbatim>\<open>src/db/Models/product_models.py\<close>.

  What is taken from outside the sources, and how:
  \<^item> \<^verbatim>\<open>update_db\<close> is modelled from the point where the validated list
    \<^verbatim>\<open>pydantic_list_of_products\<close> exists; fetching the document and validating it
    happen before and are not part of the model.
  \<^item> The schema \<^verbatim>\<open>LocationProductSchema\<close> is not among the sources, so the type of
    \<^verbatim>\<open>item.price\<close> is unknown. The model lets it be any of the values the builtin
    \<^verbatim>\<open>int\<close> can be given by a feed: an integer, a finite float (its exact value, a
    rational), a non-finite float, or a string.
  \<^item> A string is a list of characters, each a code point below 256; code points from
    256 on are not modelled. Among those below 256, \<^verbatim>\<open>str.strip\<close> removes 9 to 13,
    28 to 32, 133 and 160, whereas \<^verbatim>\<open>int\<close> accepts as padding only 9 to 13, 32, 133
    and 160, and as digits only 48 to 57. The interpreter's optional limit on the number
    of digits \<^verbatim>\<open>int\<close> accepts is not modelled.
  \<^item> The session is modelled by the three tables it reads and writes. A primary key
    is assigned by the engine on insertion: one more than the largest key in the table,
    and at least 1. The unique constraints and foreign keys the models declare are
    checked on every insertion and a violation is the error \<open>IntegrityError\<close>.
    The surrogate key of an association row is assigned by the engine and read nowhere
    in the sources; an association row is modelled by the three columns
    \<^verbatim>\<open>update_db\<close> writes. Integer columns are unbounded.
  \<^item> The weekly rebuild of the vector store at the end of \<^verbatim>\<open>update_db\<close> depends on
    the clock and on an external collaborator and writes nothing to the tables; it is
    left out.
\<close>

subsection \<open>Python strings and the builtin int\<close>

text \<open>The characters \<^verbatim>\<open>str.strip\<close> removes from both ends.\<close>

definition is_space :: "char \<Rightarrow> bool" where
  "is_space c = (c \<in> set [CHR 0x09, CHR 0x0A, CHR 0x0B, CHR 0x0C, CHR 0x0D,
                          CHR 0x1C, CHR 0x1D, CHR 0x1E, CHR 0x1F, CHR 0x20,
                          CHR 0x85, CHR 0xA0])"

definition strip :: "string \<Rightarrow> string" where
  "strip s = rev (dropWhile is_space (rev (dropWhile is_space s)))"

text \<open>The padding \<^verbatim>\<open>int\<close> accepts around a literal: the separators 28 to 31 are
  not among it.\<close>

definition is_int_space :: "char \<Rightarrow> bool" where
  "is_int_space c = (c \<in> set [CHR 0x09, CHR 0x0A, CHR 0x0B, CHR 0x0C, CHR 0x0D, CHR 0x20,
                              CHR 0x85, CHR 0xA0])"

definition int_strip :: "string \<Rightarrow> string" where
  "int_strip s = rev (dropWhile is_int_space (rev (dropWhile is_int_space s)))"

text \<open>The value of an ASCII decimal digit (code points 48 to 57).\<close>

definition digit_val :: "char \<Rightarrow> nat option" where
  "digit_val c =
     (let code = (of_char c :: nat)
      in if 48 \<le> code \<and> code \<le> 57 then Some (code - 48) else None)"

text \<open>
  The digits of a decimal literal after its first digit: a digit, or one underscore
  followed by a digit. \<open>acc\<close> is the value read so far.
\<close>

fun digits_value :: "nat \<Rightarrow> string \<Rightarrow> nat option" where
  "digits_value acc [] = Some acc"
| "digits_value acc [c] =
     (case digit_val c of None \<Rightarrow> None | Some v \<Rightarrow> Some (10 * acc + v))"
| "digits_value acc (c # d # ds) =
     (if c = CHR ''_'' then
        (case digit_val d of None \<Rightarrow> None
         | Some v \<Rightarrow> digits_value (10 * acc + v) ds)
      else
        (case digit_val c of None \<Rightarrow> None
         | Some v \<Rightarrow> digits_value (10 * acc + v) (d # ds)))"

definition unsigned_value :: "string \<Rightarrow> nat option" where
  "unsigned_value s =
     (case s of [] \<Rightarrow> None
      | c # cs \<Rightarrow> (case digit_val c of None \<Rightarrow> None | Some v \<Rightarrow> digits_value v cs))"

text \<open>\<^verbatim>\<open>int(s)\<close> for a string: padding, an optional sign, a literal.
  \<open>None\<close> is the \<^verbatim>\<open>ValueError\<close>.\<close>

definition int_of_str :: "string \<Rightarrow> int option" where
  "int_of_str s =
     (case int_strip s of [] \<Rightarrow> None
      | c # cs \<Rightarrow>
          if c = CHR ''-'' then map_option (\<lambda>n. - int n) (unsigned_value cs)
          else if c = CHR ''+'' then map_option int (unsigned_value cs)
          else map_option int (unsigned_value (c # cs)))"

datatype price_value = PInt int | PFloat rat | PNonFinite | PStr string

text \<open>\<^verbatim>\<open>int(item.price)\<close>; \<open>None\<close> is any exception, which line 157 catches. A
  float is truncated towards zero.\<close>

definition py_int :: "price_value \<Rightarrow> int option" where
  "py_int v =
     (case v of
        PInt n \<Rightarrow> Some n
      | PFloat q \<Rightarrow> Some (if 0 \<le> q then \<lfloor>q\<rfloor> else \<lceil>q\<rceil>)
      | PNonFinite \<Rightarrow> None
      | PStr s \<Rightarrow> int_of_str s)"

subsection \<open>The tables (src/db/Models/product_models.py)\<close>

record Product =
  id_p :: int
  name :: string

record Location =
  id_l :: int
  address :: string
  phone :: "string option"

record LocationProduct =
  product_id :: int
  location_id :: int
  price :: int

record store =
  products :: "Product list"
  locations :: "Location list"
  location_products :: "LocationProduct list"

text \<open>A validated feed record: \<^verbatim>\<open>item.product.name\<close>, \<^verbatim>\<open>item.location.address\<close>,
  \<^verbatim>\<open>item.price\<close>.\<close>

record LocationProductSchema =
  product_name :: string
  location_address :: string
  item_price :: price_value

datatype error = IntegrityError

definition next_id :: "int list \<Rightarrow> int" where
  "next_id ids = fold max ids 0 + 1"

text \<open>\<^verbatim>\<open>db.bulk_save_objects\<close> of new products, of new locations (their phone is
  NULL, which no unique constraint rejects) and of associations, row by row in list
  order. An \<open>Inl\<close> leaves nothing inserted.\<close>

fun bulk_save_products :: "Product list \<Rightarrow> string list \<Rightarrow> error + Product list" where
  "bulk_save_products rows [] = Inr rows"
| "bulk_save_products rows (n # ns) =
     (if n \<in> set (map name rows) then Inl IntegrityError
      else bulk_save_products
             (rows @ [\<lparr>id_p = next_id (map id_p rows), name = n\<rparr>]) ns)"

fun bulk_save_locations :: "Location list \<Rightarrow> string list \<Rightarrow> error + Location list" where
  "bulk_save_locations rows [] = Inr rows"
| "bulk_save_locations rows (a # as) =
     (if a \<in> set (map address rows) then Inl IntegrityError
      else bulk_save_locations
             (rows @ [\<lparr>id_l = next_id (map id_l rows), address = a, phone = None\<rparr>]) as)"

fun bulk_save_links ::
  "int list \<Rightarrow> int list \<Rightarrow> LocationProduct list \<Rightarrow> LocationProduct list \<Rightarrow>
   error + LocationProduct list" where
  "bulk_save_links pids lids rows [] = Inr rows"
| "bulk_save_links pids lids rows (r # rs) =
     (if (product_id r, location_id r) \<in> set (map (\<lambda>x. (product_id x, location_id x)) rows)
         \<or> product_id r \<notin> set pids \<or> location_id r \<notin> set lids
      then Inl IntegrityError
      else bulk_save_links pids lids (rows @ [r]) rs)"

subsection \<open>update\_db\<close>

text \<open>The dictionaries of lines 114, 115, 143 and 144: a later row overrides an
  earlier one with the same key.\<close>

definition name_index :: "Product list \<Rightarrow> (string \<rightharpoonup> int)" where
  "name_index ps = map_of (rev (map (\<lambda>p. (name p, id_p p)) ps))"

definition address_index :: "Location list \<Rightarrow> (string \<rightharpoonup> int)" where
  "address_index ls = map_of (rev (map (\<lambda>l. (address l, id_l l)) ls))"

text \<open>The loop of lines 123 to 131. The state is \<^verbatim>\<open>new_product_names\<close>,
  \<^verbatim>\<open>new_location_addresses\<close>, \<^verbatim>\<open>new_products\<close> and \<^verbatim>\<open>new_locations\<close>; a pending
  row is the name or address it will carry.\<close>

fun collect_new ::
  "(string \<rightharpoonup> int) \<Rightarrow> (string \<rightharpoonup> int) \<Rightarrow> LocationProductSchema list \<Rightarrow>
   string set \<times> string set \<times> string list \<times> string list \<Rightarrow>
   string set \<times> string set \<times> string list \<times> string list" where
  "collect_new existing_products existing_locations [] st = st"
| "collect_new existing_products existing_locations (item # items)
     (new_product_names, new_location_addresses, new_products, new_locations) =
     (let p_name = product_name item;
          ph_addr = location_address item;
          fresh_p = (existing_products p_name = None \<and> p_name \<notin> new_product_names);
          fresh_l = (existing_locations ph_addr = None \<and> ph_addr \<notin> new_location_addresses)
      in collect_new existing_products existing_locations items
           (if fresh_p then insert p_name new_product_names else new_product_names,
            if fresh_l then insert ph_addr new_location_addresses else new_location_addresses,
            if fresh_p then new_products @ [p_name] else new_products,
            if fresh_l then new_locations @ [ph_addr] else new_locations))"

text \<open>Python's \<^verbatim>\<open>not x\<close> for the result of \<^verbatim>\<open>dict.get\<close> on integer values: true for
  \<^verbatim>\<open>None\<close> and for 0.\<close>

definition falsy :: "int option \<Rightarrow> bool" where
  "falsy v = (case v of None \<Rightarrow> True | Some i \<Rightarrow> i = 0)"

text \<open>The loop of lines 154 to 179. The state is \<^verbatim>\<open>seen_links\<close>,
  \<^verbatim>\<open>pharm_prod_prices\<close> and \<^verbatim>\<open>counter\<close>.\<close>

fun build_links ::
  "(string \<rightharpoonup> int) \<Rightarrow> (string \<rightharpoonup> int) \<Rightarrow> LocationProductSchema list \<Rightarrow>
   (int \<times> int) set \<times> LocationProduct list \<times> nat \<Rightarrow>
   (int \<times> int) set \<times> LocationProduct list \<times> nat" where
  "build_links existing_products existing_locations [] st = st"
| "build_links existing_products existing_locations (item # items)
     (seen_links, pharm_prod_prices, counter) =
     (case py_int (item_price item) of
        None \<Rightarrow> build_links existing_products existing_locations items
                  (seen_links, pharm_prod_prices, counter)
      | Some price_product \<Rightarrow>
          (let p_name = strip (product_name item);
               ph_addr = strip (location_address item);
               pid = existing_products p_name;
               lid = existing_locations ph_addr
           in if falsy pid \<or> falsy lid then
                build_links existing_products existing_locations items
                  (seen_links, pharm_prod_prices, counter)
              else if (the pid, the lid) \<in> seen_links then
                build_links existing_products existing_locations items
                  (seen_links, pharm_prod_prices, counter)
              else
                build_links existing_products existing_locations items
                  (insert (the pid, the lid) seen_links,
                   pharm_prod_prices @
                     [\<lparr>product_id = the pid, location_id = the lid, price = price_product\<rparr>],
                   counter + 1)))"

definition update_db :: "store \<Rightarrow> LocationProductSchema list \<Rightarrow> error + (store \<times> nat)" where
  "update_db db pydantic_list_of_products =
     (case collect_new (name_index (products db)) (address_index (locations db))
             pydantic_list_of_products ({}, {}, [], []) of
        (new_product_names, new_location_addresses, new_products, new_locations) \<Rightarrow>
     (case (if new_products \<noteq> [] then bulk_save_products (products db) new_products
            else Inr (products db)) of
        Inl e \<Rightarrow> Inl e
      | Inr ps \<Rightarrow>
     (case (if new_locations \<noteq> [] then bulk_save_locations (locations db) new_locations
            else Inr (locations db)) of
        Inl e \<Rightarrow> Inl e
      | Inr ls \<Rightarrow>
     (case build_links (name_index ps) (address_index ls)
             pydantic_list_of_products ({}, [], 0) of
        (seen_links, pharm_prod_prices, counter) \<Rightarrow>
     (case (if pharm_prod_prices \<noteq> []
            then bulk_save_links (map id_p ps) (map id_l ls) [] pharm_prod_prices
            else Inr []) of
        Inl e \<Rightarrow> Inl e
      | Inr lps \<Rightarrow>
          Inr (\<lparr>products = ps, locations = ls, location_products = lps\<rparr>, counter))))))"

subsection \<open>get\_all\_products\<close>

definition get_all_products :: "store \<Rightarrow> string list option" where
  "get_all_products db =
     (let products = products db
      in if products \<noteq> [] then Some (map name products) else None)"

subsection \<open>Notions used to state the properties\<close>

text \<open>The pair that the constraint \<^verbatim>\<open>uix_product_Location\<close> keeps unique, and
  the key of \<^verbatim>\<open>seen_links\<close>.\<close>

definition link_key :: "LocationProduct \<Rightarrow> int \<times> int" where
  "link_key r = (product_id r, location_id r)"

text \<open>What one round of the loop of lines 154 to 179 appends when its key has not been
  seen: the guards of lines 155 to 167 and the row of lines 175 to 177.\<close>

definition link_of ::
  "(string \<rightharpoonup> int) \<Rightarrow> (string \<rightharpoonup> int) \<Rightarrow> LocationProductSchema \<Rightarrow> LocationProduct option" where
  "link_of existing_products existing_locations item =
     (case py_int (item_price item) of
        None \<Rightarrow> None
      | Some price_product \<Rightarrow>
          (let pid = existing_products (strip (product_name item));
               lid = existing_locations (strip (location_address item))
           in if falsy pid \<or> falsy lid then None
              else Some \<lparr>product_id = the pid, location_id = the lid, price = price_product\<rparr>))"

text \<open>Keeping, of rows that share a key, the earliest.\<close>

fun keep_first :: "(int \<times> int) set \<Rightarrow> LocationProduct list \<Rightarrow> LocationProduct list" where
  "keep_first seen [] = []"
| "keep_first seen (r # rs) =
     (if link_key r \<in> seen then keep_first seen rs
      else r # keep_first (insert (link_key r) seen) rs)"

text \<open>The association rows a batch gives against given product and location tables.\<close>

definition links_for :: "Product list \<Rightarrow> Location list \<Rightarrow> LocationProductSchema list \<Rightarrow> LocationProduct list" where
  "links_for ps ls items =
     keep_first {} (List.map_filter (link_of (name_index ps) (address_index ls)) items)"

definition empty_store :: store where
  "empty_store = \<lparr>products = [], locations = [], location_products = []\<rparr>"



subsection \<open>Example data\<close>

text \<open>The feed of the specification's scenario, the store it gives from an empty store,
  and a store holding two associations.\<close>

definition aspirin_feed :: "LocationProductSchema list" where
  "aspirin_feed =
     [\<lparr>product_name = ''Aspirin'', location_address = ''Main St'', item_price = PStr ''10''\<rparr>,
      \<lparr>product_name = ''Aspirin'', location_address = ''Main St'', item_price = PStr ''20''\<rparr>]"

definition aspirin_store :: store where
  "aspirin_store =
     \<lparr>products = [\<lparr>id_p = 1, name = ''Aspirin''\<rparr>],
      locations = [\<lparr>id_l = 1, address = ''Main St'', phone = None\<rparr>],
      location_products = [\<lparr>product_id = 1, location_id = 1, price = 10\<rparr>]\<rparr>"

definition stocked_store :: store where
  "stocked_store =
     \<lparr>products = [\<lparr>id_p = 1, name = ''Aspirin''\<rparr>, \<lparr>id_p = 2, name = ''Ibuprofen''\<rparr>],
      locations = [\<lparr>id_l = 1, address = ''Main St'', phone = None\<rparr>],
      location_products = [\<lparr>product_id = 1, location_id = 1, price = 10\<rparr>,
                           \<lparr>product_id = 2, location_id = 1, price = 7\<rparr>]\<rparr>"

section \<open>Auxiliary facts\<close>

subsection \<open>Keys and dictionaries\<close>





lemma dom_name_index: "dom (name_index ps) = set (map name ps)"
  by (simp add: name_index_def dom_map_of_conv_image_fst image_image)

lemma dom_address_index: "dom (address_index ls) = set (map address ls)"
  by (simp add: address_index_def dom_map_of_conv_image_fst image_image)

lemma name_index_SomeD:
  "name_index ps a = Some i \<Longrightarrow> \<exists>p \<in> set ps. name p = a \<and> id_p p = i"
  by (auto simp: name_index_def dest!: map_of_SomeD)

lemma address_index_SomeD:
  "address_index ls a = Some i \<Longrightarrow> \<exists>l \<in> set ls. address l = a \<and> id_l l = i"
  by (auto simp: address_index_def dest!: map_of_SomeD)

lemma bulk_save_products_ok:
  "distinct ns \<Longrightarrow> set ns \<inter> set (map name rows) = {} \<Longrightarrow>
   \<exists>new. bulk_save_products rows ns = Inr (rows @ new) \<and> map name new = ns"
proof (induction ns arbitrary: rows)
  case Nil
  then show ?case by simp
next
  case (Cons n ns)
  let ?row = "\<lparr>id_p = next_id (map id_p rows), name = n\<rparr>"
  from Cons.prems have "distinct ns" "set ns \<inter> set (map name (rows @ [?row])) = {}"
    by auto
  from Cons.IH[OF this] obtain new where
    "bulk_save_products (rows @ [?row]) ns = Inr ((rows @ [?row]) @ new)" "map name new = ns"
    by blast
  with Cons.prems show ?case
    by (intro exI[of _ "?row # new"]) auto
qed

lemma bulk_save_locations_ok:
  "distinct ns \<Longrightarrow> set ns \<inter> set (map address rows) = {} \<Longrightarrow>
   \<exists>new. bulk_save_locations rows ns = Inr (rows @ new) \<and> map address new = ns"
proof (induction ns arbitrary: rows)
  case Nil
  then show ?case by simp
next
  case (Cons n ns)
  let ?row = "\<lparr>id_l = next_id (map id_l rows), address = n, phone = None\<rparr>"
  from Cons.prems have "distinct ns" "set ns \<inter> set (map address (rows @ [?row])) = {}"
    by auto
  from Cons.IH[OF this] obtain new where
    "bulk_save_locations (rows @ [?row]) ns = Inr ((rows @ [?row]) @ new)" "map address new = ns"
    by blast
  with Cons.prems show ?case
    by (intro exI[of _ "?row # new"]) auto
qed



lemma collect_new_products:
  "collect_new eP eL items (A, B, np, nl) = (A', B', np', nl') \<Longrightarrow>
   A = set np \<Longrightarrow> distinct np \<Longrightarrow> set np \<inter> dom eP = {} \<Longrightarrow>
   distinct np' \<and> set np' \<inter> dom eP = {} \<and>
   set np' = set np \<union> (product_name ` set items - dom eP)"
proof (induction items arbitrary: A B np nl)
  case Nil
  then show ?case by auto
next
  case (Cons item items)
  let ?n = "product_name item"
  let ?fresh = "eP ?n = None \<and> ?n \<notin> A"
  let ?A = "if ?fresh then insert ?n A else A"
  let ?np = "if ?fresh then np @ [?n] else np"
  obtain B2 nl2 where
    step: "collect_new eP eL items (?A, B2, ?np, nl2) = (A', B', np', nl')"
    using Cons.prems(1) by (simp add: Let_def)
  have a: "?A = set ?np" using Cons.prems(2) by simp
  have b: "distinct ?np" using Cons.prems(2,3) by simp
  have c: "set ?np \<inter> dom eP = {}" using Cons.prems(4) by (auto simp: domIff)
  from Cons.IH[OF step a b c]
  have r: "distinct np'" "set np' \<inter> dom eP = {}"
    "set np' = set ?np \<union> (product_name ` set items - dom eP)"
    by blast+
  have "set ?np \<union> (product_name ` set items - dom eP)
        = set np \<union> (product_name ` set (item # items) - dom eP)"
    using Cons.prems(2) by (auto simp: domIff)
  with r show ?case by simp
qed

lemma collect_new_locations:
  "collect_new eP eL items (A, B, np, nl) = (A', B', np', nl') \<Longrightarrow>
   B = set nl \<Longrightarrow> distinct nl \<Longrightarrow> set nl \<inter> dom eL = {} \<Longrightarrow>
   distinct nl' \<and> set nl' \<inter> dom eL = {} \<and>
   set nl' = set nl \<union> (location_address ` set items - dom eL)"
proof (induction items arbitrary: A B np nl)
  case Nil
  then show ?case by auto
next
  case (Cons item items)
  let ?n = "location_address item"
  let ?fresh = "eL ?n = None \<and> ?n \<notin> B"
  let ?B = "if ?fresh then insert ?n B else B"
  let ?nl = "if ?fresh then nl @ [?n] else nl"
  obtain A2 np2 where
    step: "collect_new eP eL items (A2, ?B, np2, ?nl) = (A', B', np', nl')"
    using Cons.prems(1) by (simp add: Let_def)
  have a: "?B = set ?nl" using Cons.prems(2) by simp
  have b: "distinct ?nl" using Cons.prems(2,3) by simp
  have c: "set ?nl \<inter> dom eL = {}" using Cons.prems(4) by (auto simp: domIff)
  from Cons.IH[OF step a b c]
  have r: "distinct nl'" "set nl' \<inter> dom eL = {}"
    "set nl' = set ?nl \<union> (location_address ` set items - dom eL)"
    by blast+
  have "set ?nl \<union> (location_address ` set items - dom eL)
        = set nl \<union> (location_address ` set (item # items) - dom eL)"
    using Cons.prems(2) by (auto simp: domIff)
  with r show ?case by simp
qed

subsection \<open>The association loop\<close>

lemma build_links_keep_first:
  "build_links eP eL items (S, acc, c) =
     (let new = keep_first S (List.map_filter (link_of eP eL) items)
      in (S \<union> link_key ` set new, acc @ new, c + length new))"
proof (induction items arbitrary: S acc c)
  case Nil
  then show ?case by (simp add: List.map_filter_simps)
next
  case (Cons item items)
  show ?case
  proof (cases "link_of eP eL item")
    case None
    then have "build_links eP eL (item # items) (S, acc, c) = build_links eP eL items (S, acc, c)"
      by (auto simp: link_of_def Let_def split: option.splits if_splits)
    with None Cons.IH show ?thesis by (simp add: List.map_filter_simps)
  next
    case (Some r)
    show ?thesis
    proof (cases "link_key r \<in> S")
      case True
      with Some have "build_links eP eL (item # items) (S, acc, c) = build_links eP eL items (S, acc, c)"
        by (auto simp: link_of_def link_key_def Let_def split: option.splits if_splits)
      with Some True Cons.IH show ?thesis by (simp add: List.map_filter_simps)
    next
      case False
      with Some have "build_links eP eL (item # items) (S, acc, c)
          = build_links eP eL items (insert (link_key r) S, acc @ [r], c + 1)"
        by (auto simp: link_of_def link_key_def Let_def split: option.splits if_splits)
      with Some False Cons.IH show ?thesis by (simp add: List.map_filter_simps Let_def)
    qed
  qed
qed

lemma keep_first_subset: "set (keep_first S rs) \<subseteq> set rs"
  by (induction rs arbitrary: S) auto

lemma keep_first_keys: "link_key ` set (keep_first S rs) = link_key ` set rs - S"
  by (induction rs arbitrary: S) auto

lemma keep_first_distinct: "distinct (map link_key (keep_first S rs))"
  by (induction rs arbitrary: S) (auto simp: keep_first_keys)

lemma keep_first_find:
  "r \<in> set (keep_first S rs) \<Longrightarrow> find (\<lambda>x. link_key x = link_key r) rs = Some r"
proof (induction rs arbitrary: S)
  case Nil
  then show ?case by simp
next
  case (Cons x xs)
  show ?case
  proof (cases "link_key x \<in> S")
    case True
    with Cons.prems have in_rest: "r \<in> set (keep_first S xs)" by simp
    then have "link_key r \<notin> S" using keep_first_keys[of S xs] by blast
    with True have "link_key x \<noteq> link_key r" by auto
    with Cons.IH[OF in_rest] show ?thesis by simp
  next
    case False
    show ?thesis
    proof (cases "r = x")
      case True
      then show ?thesis by simp
    next
      case neq: False
      with False Cons.prems have in_rest: "r \<in> set (keep_first (insert (link_key x) S) xs)"
        by simp
      then have "link_key r \<notin> insert (link_key x) S"
        using keep_first_keys[of "insert (link_key x) S" xs] by blast
      then have "link_key x \<noteq> link_key r" by auto
      with Cons.IH[OF in_rest] show ?thesis by simp
    qed
  qed
qed


lemma find_map_filter:
  "find P (List.map_filter f xs)
   = Option.bind (find (\<lambda>x. case f x of None \<Rightarrow> False | Some y \<Rightarrow> P y) xs) f"
  by (induction xs) (auto simp: List.map_filter_simps split: option.splits)

lemma bulk_save_links_ok:
  "distinct (map link_key (rows @ new)) \<Longrightarrow>
   product_id ` set new \<subseteq> set pids \<Longrightarrow> location_id ` set new \<subseteq> set lids \<Longrightarrow>
   bulk_save_links pids lids rows new = Inr (rows @ new)"
proof (induction new arbitrary: rows)
  case Nil
  then show ?case by simp
next
  case (Cons r rs)
  have fresh: "(product_id r, location_id r) \<notin> set (map (\<lambda>x. (product_id x, location_id x)) rows)"
    using Cons.prems(1) by (auto simp: link_key_def)
  have "bulk_save_links pids lids (rows @ [r]) rs = Inr ((rows @ [r]) @ rs)"
    using Cons.prems by (intro Cons.IH) auto
  with fresh Cons.prems(2,3) show ?case by simp
qed

lemma link_of_SomeD:
  "link_of eP eL item = Some r \<Longrightarrow>
   py_int (item_price item) = Some (price r) \<and>
   eP (strip (product_name item)) = Some (product_id r) \<and>
   eL (strip (location_address item)) = Some (location_id r) \<and>
   product_id r \<noteq> 0 \<and> location_id r \<noteq> 0"
  by (auto simp: link_of_def falsy_def Let_def split: option.splits if_splits)

subsection \<open>The shape of a run\<close>

lemma links_for_fk:
  "r \<in> set (links_for ps ls items) \<Longrightarrow>
   product_id r \<in> set (map id_p ps) \<and> location_id r \<in> set (map id_l ls)"
proof -
  assume "r \<in> set (links_for ps ls items)"
  then have "r \<in> set (List.map_filter (link_of (name_index ps) (address_index ls)) items)"
    using keep_first_subset by (auto simp: links_for_def)
  then obtain item where "link_of (name_index ps) (address_index ls) item = Some r"
    by (auto simp: List.map_filter_def)
  from link_of_SomeD[OF this]
  have a: "name_index ps (strip (product_name item)) = Some (product_id r)"
    and b: "address_index ls (strip (location_address item)) = Some (location_id r)"
    by simp_all
  from name_index_SomeD[OF a] obtain p where "p \<in> set ps" "id_p p = product_id r" by blast
  then have "product_id r \<in> id_p ` set ps" by (metis imageI)
  moreover from address_index_SomeD[OF b] obtain l where "l \<in> set ls" "id_l l = location_id r"
    by blast
  then have "location_id r \<in> id_l ` set ls" by (metis imageI)
  ultimately show ?thesis by simp
qed

lemma update_db_char:
  "\<exists>new_p new_l.
     update_db db items =
       Inr (\<lparr>products = products db @ new_p, locations = locations db @ new_l,
             location_products = links_for (products db @ new_p) (locations db @ new_l) items\<rparr>,
            length (links_for (products db @ new_p) (locations db @ new_l) items)) \<and>
     distinct (map name new_p) \<and>
     set (map name new_p) = product_name ` set items - set (map name (products db)) \<and>
     distinct (map address new_l) \<and>
     set (map address new_l) = location_address ` set items - set (map address (locations db)) \<and>
     bulk_save_products (products db) (map name new_p) = Inr (products db @ new_p) \<and>
     bulk_save_locations (locations db) (map address new_l) = Inr (locations db @ new_l)"
proof -
  let ?eP = "name_index (products db)" and ?eL = "address_index (locations db)"
  obtain A B np nl where cn: "collect_new ?eP ?eL items ({}, {}, [], []) = (A, B, np, nl)"
    by (metis prod_cases4)
  from collect_new_products[OF cn] have np: "distinct np" "set np \<inter> dom ?eP = {}"
    "set np = product_name ` set items - dom ?eP" by auto
  from collect_new_locations[OF cn] have nl: "distinct nl" "set nl \<inter> dom ?eL = {}"
    "set nl = location_address ` set items - dom ?eL" by auto
  from bulk_save_products_ok[OF np(1), of "products db"] np(2)
  obtain new_p where sp: "bulk_save_products (products db) np = Inr (products db @ new_p)"
    and new_p: "map name new_p = np"
    by (auto simp: dom_name_index)
  from bulk_save_locations_ok[OF nl(1), of "locations db"] nl(2)
  obtain new_l where sl: "bulk_save_locations (locations db) nl = Inr (locations db @ new_l)"
    and new_l: "map address new_l = nl"
    by (auto simp: dom_address_index)
  let ?ps = "products db @ new_p" and ?ls = "locations db @ new_l"
  have ps: "(if np \<noteq> [] then bulk_save_products (products db) np else Inr (products db)) = Inr ?ps"
    using sp new_p by (cases "np = []") auto
  have ls: "(if nl \<noteq> [] then bulk_save_locations (locations db) nl else Inr (locations db)) = Inr ?ls"
    using sl new_l by (cases "nl = []") auto
  let ?new = "links_for ?ps ?ls items"
  have bl: "build_links (name_index ?ps) (address_index ?ls) items ({}, [], 0)
            = (link_key ` set ?new, ?new, length ?new)"
    by (simp add: build_links_keep_first links_for_def Let_def)
  have "bulk_save_links (map id_p ?ps) (map id_l ?ls) [] ?new = Inr ([] @ ?new)"
  proof (rule bulk_save_links_ok)
    show "distinct (map link_key ([] @ ?new))"
      by (simp add: links_for_def keep_first_distinct)
    show "product_id ` set ?new \<subseteq> set (map id_p ?ps)"
      using links_for_fk[of _ ?ps ?ls items] by blast
    show "location_id ` set ?new \<subseteq> set (map id_l ?ls)"
      using links_for_fk[of _ ?ps ?ls items] by blast
  qed
  then have sv: "(if ?new \<noteq> [] then bulk_save_links (map id_p ?ps) (map id_l ?ls) [] ?new else Inr []) = Inr ?new"
    by (cases "?new = []") auto
  have "update_db db items =
       Inr (\<lparr>products = ?ps, locations = ?ls, location_products = ?new\<rparr>, length ?new)"
    unfolding update_db_def cn prod.case ps ls sum.case bl sv by simp
  moreover have "set (map name new_p) = product_name ` set items - set (map name (products db))"
    using np(3) new_p by (simp add: dom_name_index)
  moreover have "set (map address new_l) = location_address ` set items - set (map address (locations db))"
    using nl(3) new_l by (simp add: dom_address_index)
  ultimately show ?thesis
    using np(1) nl(1) new_p new_l sp sl by blast
qed

subsection \<open>Facts about a run\<close>

lemma update_db_ignores_old_links:
  "update_db (db\<lparr>location_products := old\<rparr>) items = update_db db items"
  by (simp add: update_db_def cong: prod.case_cong sum.case_cong if_cong)

lemma links_for_sound:
  "r \<in> set (links_for ps ls items) \<Longrightarrow>
   \<exists>item \<in> set items. link_of (name_index ps) (address_index ls) item = Some r"
proof -
  assume "r \<in> set (links_for ps ls items)"
  then have "r \<in> set (List.map_filter (link_of (name_index ps) (address_index ls)) items)"
    using keep_first_subset by (auto simp: links_for_def)
  then show ?thesis by (auto simp: List.map_filter_def)
qed

lemma links_for_complete:
  "item \<in> set items \<Longrightarrow> link_of (name_index ps) (address_index ls) item = Some r \<Longrightarrow>
   \<exists>r' \<in> set (links_for ps ls items). link_key r' = link_key r"
proof -
  assume a: "item \<in> set items" "link_of (name_index ps) (address_index ls) item = Some r"
  let ?rs = "List.map_filter (link_of (name_index ps) (address_index ls)) items"
  from a have "r \<in> set ?rs" by (force simp: List.map_filter_def)
  then have "link_key r \<in> link_key ` set ?rs - {}" by simp
  then have "link_key r \<in> link_key ` set (keep_first {} ?rs)"
    by (simp only: keep_first_keys)
  then show ?thesis by (auto simp: links_for_def)
qed

lemma update_db_InrD:
  assumes "update_db db items = Inr (db', n)"
  shows "location_products db' = links_for (products db') (locations db') items"
    and "n = length (location_products db')"
    and "\<exists>new_p. products db' = products db @ new_p \<and> distinct (map name new_p) \<and>
           set (map name new_p) = product_name ` set items - set (map name (products db)) \<and>
           bulk_save_products (products db) (map name new_p) = Inr (products db')"
    and "\<exists>new_l. locations db' = locations db @ new_l \<and> distinct (map address new_l) \<and>
           set (map address new_l) = location_address ` set items - set (map address (locations db)) \<and>
           bulk_save_locations (locations db) (map address new_l) = Inr (locations db')"
proof -
  from update_db_char[of db items] obtain new_p new_l where
    run: "update_db db items =
       Inr (\<lparr>products = products db @ new_p, locations = locations db @ new_l,
             location_products = links_for (products db @ new_p) (locations db @ new_l) items\<rparr>,
            length (links_for (products db @ new_p) (locations db @ new_l) items))"
    and p: "distinct (map name new_p)"
      "set (map name new_p) = product_name ` set items - set (map name (products db))"
      "bulk_save_products (products db) (map name new_p) = Inr (products db @ new_p)"
    and l: "distinct (map address new_l)"
      "set (map address new_l) = location_address ` set items - set (map address (locations db))"
      "bulk_save_locations (locations db) (map address new_l) = Inr (locations db @ new_l)"
    by blast
  from run assms have db': "db' = \<lparr>products = products db @ new_p, locations = locations db @ new_l,
             location_products = links_for (products db @ new_p) (locations db @ new_l) items\<rparr>"
    and n: "n = length (links_for (products db @ new_p) (locations db @ new_l) items)"
    by simp_all
  show "location_products db' = links_for (products db') (locations db') items"
    by (simp add: db')
  show "n = length (location_products db')" by (simp add: db' n)
  show "\<exists>new_p. products db' = products db @ new_p \<and> distinct (map name new_p) \<and>
           set (map name new_p) = product_name ` set items - set (map name (products db)) \<and>
           bulk_save_products (products db) (map name new_p) = Inr (products db')"
    using p by (intro exI[of _ new_p]) (simp add: db')
  show "\<exists>new_l. locations db' = locations db @ new_l \<and> distinct (map address new_l) \<and>
           set (map address new_l) = location_address ` set items - set (map address (locations db)) \<and>
           bulk_save_locations (locations db) (map address new_l) = Inr (locations db')"
    using l by (intro exI[of _ new_l]) (simp add: db')
qed

lemma update_db_succeeds: "\<exists>db' n. update_db db items = Inr (db', n)"
  using update_db_char[of db items] by blast

lemma update_db_names:
  assumes "update_db db items = Inr (db', n)"
  shows "set (map name (products db')) = set (map name (products db)) \<union> product_name ` set items"
    and "set (map address (locations db')) = set (map address (locations db)) \<union> location_address ` set items"
proof -
  from update_db_InrD(3)[OF assms] obtain new_p where
    "products db' = products db @ new_p"
    "set (map name new_p) = product_name ` set items - set (map name (products db))" by blast
  then show "set (map name (products db')) = set (map name (products db)) \<union> product_name ` set items"
    by auto
  from update_db_InrD(4)[OF assms] obtain new_l where
    "locations db' = locations db @ new_l"
    "set (map address new_l) = location_address ` set items - set (map address (locations db))" by blast
  then show "set (map address (locations db')) = set (map address (locations db)) \<union> location_address ` set items"
    by auto
qed


lemma filter_key_single:
  "distinct (map f xs) \<Longrightarrow> x \<in> set xs \<Longrightarrow> filter (\<lambda>y. f y = f x) xs = [x]"
proof (induction xs)
  case Nil
  then show ?case by simp
next
  case (Cons a xs)
  show ?case
  proof (cases "a = x")
    case True
    with Cons.prems(1) have "f x \<notin> f ` set xs" by simp
    then have "\<forall>y \<in> set xs. f y \<noteq> f x" by (metis imageI)
    then have "filter (\<lambda>y. f y = f x) xs = []" by (simp add: filter_empty_conv)
    with True show ?thesis by simp
  next
    case False
    with Cons.prems have "x \<in> set xs" "f a \<noteq> f x" by auto
    with Cons.IH Cons.prems(1) show ?thesis by simp
  qed
qed

lemma find_map_filter_key:
  "find (\<lambda>y. g y = k) (List.map_filter f xs)
   = Option.bind (find (\<lambda>x. map_option g (f x) = Some k) xs) f"
  by (induction xs) (auto simp: List.map_filter_simps split: option.splits)

lemma links_for_first:
  assumes "r \<in> set (links_for ps ls items)"
  shows "\<exists>first. find (\<lambda>it. map_option link_key (link_of (name_index ps) (address_index ls) it)
                           = Some (link_key r)) items = Some first \<and>
           link_of (name_index ps) (address_index ls) first = Some r"
proof -
  let ?f = "link_of (name_index ps) (address_index ls)"
  from assms have "find (\<lambda>x. link_key x = link_key r) (List.map_filter ?f items) = Some r"
    unfolding links_for_def by (rule keep_first_find)
  then have "Option.bind (find (\<lambda>x. map_option link_key (?f x) = Some (link_key r)) items) ?f = Some r"
    by (simp only: find_map_filter_key)
  then show ?thesis by (simp add: bind_eq_Some_conv)
qed

lemma links_for_distinct: "distinct (map link_key (links_for ps ls items))"
  by (simp add: links_for_def keep_first_distinct)

lemma py_int_float:
  "\<exists>v. py_int (PFloat q) = Some v \<and> \<bar>of_int v\<bar> \<le> \<bar>q\<bar> \<and> \<bar>q\<bar> < \<bar>of_int v\<bar> + 1 \<and>
       (0 \<le> q \<longrightarrow> 0 \<le> v) \<and> (q \<le> 0 \<longrightarrow> v \<le> 0)"
proof (cases "0 \<le> q")
  case True
  then show ?thesis by (simp add: py_int_def) linarith
next
  case False
  then have "\<lceil>q\<rceil> \<le> 0" by (simp add: ceiling_le_zero)
  with False show ?thesis by (simp add: py_int_def) linarith
qed

lemma build_links_links_for:
  "snd (build_links (name_index ps) (address_index ls) items ({}, [], 0))
   = (links_for ps ls items, length (links_for ps ls items))"
  by (simp add: build_links_keep_first links_for_def Let_def)

lemma link_of_unresolved:
  "strip (product_name item) \<notin> set (map name ps) \<or>
   strip (location_address item) \<notin> set (map address ls) \<Longrightarrow>
   link_of (name_index ps) (address_index ls) item = None"
proof -
  assume "strip (product_name item) \<notin> set (map name ps) \<or>
   strip (location_address item) \<notin> set (map address ls)"
  then have "strip (product_name item) \<notin> dom (name_index ps) \<or>
     strip (location_address item) \<notin> dom (address_index ls)"
    by (simp only: dom_name_index dom_address_index)
  then have "name_index ps (strip (product_name item)) = None \<or>
     address_index ls (strip (location_address item)) = None"
    by (auto simp: domIff)
  then show ?thesis
    by (auto simp: link_of_def falsy_def Let_def split: option.splits)
qed

lemma links_for_skip:
  "link_of (name_index ps) (address_index ls) item = None \<Longrightarrow>
   links_for ps ls (xs @ item # ys) = links_for ps ls (xs @ ys)"
  by (simp add: links_for_def List.map_filter_def)









lemma aspirin_run: "update_db empty_store aspirin_feed = Inr (aspirin_store, 1)"
  by code_simp

section \<open>The claims\<close>

text \<open>
  C1. Full replace. When a run of \<^verbatim>\<open>update_db\<close> succeeds, the association table it
  leaves does not depend on the association rows present before the run (any other
  content of that table gives the same store and count); every row it holds is the
  association of some record of the batch (price parsed from it, ids resolved from its
  stripped name and address against the tables after the run); and every record of the
  batch that parses and resolves has a row for its pair. So a pair that no record of the
  new batch resolves to has no row after the run.
\<close>

theorem full_replace:
  "update_db db items = Inr (db', n) \<Longrightarrow>
   update_db (db\<lparr>location_products := old\<rparr>) items = Inr (db', n) \<and>
   (\<forall>r \<in> set (location_products db').
      \<exists>item \<in> set items.
        link_of (name_index (products db')) (address_index (locations db')) item = Some r) \<and>
   (\<forall>item \<in> set items. \<forall>r.
      link_of (name_index (products db')) (address_index (locations db')) item = Some r \<longrightarrow>
      (\<exists>r' \<in> set (location_products db'). link_key r' = link_key r))"
proof -
  assume run: "update_db db items = Inr (db', n)"
  note tab = update_db_InrD(1)[OF run]
  have "update_db (db\<lparr>location_products := old\<rparr>) items = Inr (db', n)"
    using run by (simp only: update_db_ignores_old_links)
  moreover have "\<forall>r \<in> set (location_products db').
      \<exists>item \<in> set items.
        link_of (name_index (products db')) (address_index (locations db')) item = Some r"
    using links_for_sound[of _ "products db'" "locations db'" items] tab by simp
  moreover have "\<forall>item \<in> set items. \<forall>r.
      link_of (name_index (products db')) (address_index (locations db')) item = Some r \<longrightarrow>
      (\<exists>r' \<in> set (location_products db'). link_key r' = link_key r)"
    using links_for_complete[of _ items "products db'" "locations db'"] tab by simp
  ultimately show ?thesis by blast
qed

text \<open>A store holding the pairs (Aspirin, Main St) and (Ibuprofen, Main St), and a feed
  that keeps only the first: the second pair has no row after the run, whatever the
  table held before.\<close>

theorem full_replace_witness:
  "update_db stocked_store
     [\<lparr>product_name = ''Aspirin'', location_address = ''Main St'', item_price = PStr ''12''\<rparr>]
   = Inr (\<lparr>products = products stocked_store, locations = locations stocked_store,
            location_products = [\<lparr>product_id = 1, location_id = 1, price = 12\<rparr>]\<rparr>, 1) \<and>
   update_db (stocked_store\<lparr>location_products := []\<rparr>)
     [\<lparr>product_name = ''Aspirin'', location_address = ''Main St'', item_price = PStr ''12''\<rparr>]
   = Inr (\<lparr>products = products stocked_store, locations = locations stocked_store,
            location_products = [\<lparr>product_id = 1, location_id = 1, price = 12\<rparr>]\<rparr>, 1)"
proof -
  have run: "update_db stocked_store
     [\<lparr>product_name = ''Aspirin'', location_address = ''Main St'', item_price = PStr ''12''\<rparr>]
   = Inr (\<lparr>products = products stocked_store, locations = locations stocked_store,
            location_products = [\<lparr>product_id = 1, location_id = 1, price = 12\<rparr>]\<rparr>, 1)"
    by code_simp
  from full_replace [OF run, of "[]"] run show ?thesis by blast
qed

text \<open>
  C2. First occurrence wins. For a successful run and any record of the batch that
  parses and resolves to a pair, exactly one row of the association table has that pair,
  and it is the row of the first record, in input order, that parses and resolves to the
  pair: it carries that record's parsed price. The witness is the scenario of the
  specification: from the empty store the two Aspirin records give one product, one
  location, one association with price 10, and the count 1.
\<close>

theorem first_occurrence_wins:
  "update_db db items = Inr (db', n) \<Longrightarrow> item \<in> set items \<Longrightarrow>
   link_of (name_index (products db')) (address_index (locations db')) item = Some r0 \<Longrightarrow>
   \<exists>first r.
     find (\<lambda>it. map_option link_key
                  (link_of (name_index (products db')) (address_index (locations db')) it)
                = Some (link_key r0)) items = Some first \<and>
     link_of (name_index (products db')) (address_index (locations db')) first = Some r \<and>
     py_int (item_price first) = Some (price r) \<and>
     filter (\<lambda>x. link_key x = link_key r0) (location_products db') = [r]"
proof -
  assume run: "update_db db items = Inr (db', n)" and mem: "item \<in> set items"
    and link: "link_of (name_index (products db')) (address_index (locations db')) item = Some r0"
  note tab = update_db_InrD(1)[OF run]
  from links_for_complete[OF mem link] obtain r where
    r: "r \<in> set (location_products db')" "link_key r = link_key r0"
    using tab by auto
  from links_for_first[of r "products db'" "locations db'" items] r(1) tab
  obtain first where
    first: "find (\<lambda>it. map_option link_key
                  (link_of (name_index (products db')) (address_index (locations db')) it)
                = Some (link_key r)) items = Some first"
      "link_of (name_index (products db')) (address_index (locations db')) first = Some r"
    by auto
  have "distinct (map link_key (location_products db'))"
    using links_for_distinct tab by simp
  from filter_key_single[OF this r(1)]
  have one: "filter (\<lambda>x. link_key x = link_key r0) (location_products db') = [r]"
    by (simp add: r(2))
  from link_of_SomeD[OF first(2)] have "py_int (item_price first) = Some (price r)" by simp
  with first one r(2) show ?thesis by auto
qed

theorem first_occurrence_wins_witness:
  "update_db empty_store aspirin_feed = Inr (aspirin_store, 1) \<and>
   aspirin_feed ! 1 \<in> set aspirin_feed \<and>
   link_of (name_index (products aspirin_store)) (address_index (locations aspirin_store))
     (aspirin_feed ! 1) = Some \<lparr>product_id = 1, location_id = 1, price = 20\<rparr> \<and>
   find (\<lambda>it. map_option link_key
                (link_of (name_index (products aspirin_store))
                   (address_index (locations aspirin_store)) it)
              = Some (1, 1)) aspirin_feed = Some (aspirin_feed ! 0) \<and>
   py_int (item_price (aspirin_feed ! 0)) = Some 10 \<and>
   filter (\<lambda>x. link_key x = (1, 1)) (location_products aspirin_store)
     = [\<lparr>product_id = 1, location_id = 1, price = 10\<rparr>]"
proof -
  have mem: "aspirin_feed ! 1 \<in> set aspirin_feed" by (simp add: aspirin_feed_def)
  have link: "link_of (name_index (products aspirin_store)) (address_index (locations aspirin_store))
     (aspirin_feed ! 1) = Some \<lparr>product_id = 1, location_id = 1, price = 20\<rparr>"
    by code_simp
  have key: "link_key \<lparr>product_id = 1, location_id = 1, price = 20\<rparr> = (1, 1)"
    by (simp add: link_key_def)
  have first: "find (\<lambda>it. map_option link_key
                (link_of (name_index (products aspirin_store))
                   (address_index (locations aspirin_store)) it)
              = Some (1, 1)) aspirin_feed = Some (aspirin_feed ! 0)"
    by code_simp
  have p: "py_int (item_price (aspirin_feed ! 0)) = Some 10" by code_simp
  have l0: "link_of (name_index (products aspirin_store)) (address_index (locations aspirin_store))
     (aspirin_feed ! 0) = Some \<lparr>product_id = 1, location_id = 1, price = 10\<rparr>"
    by code_simp
  from first_occurrence_wins [OF aspirin_run mem link] first l0 key
  have "filter (\<lambda>x. link_key x = (1, 1)) (location_products aspirin_store)
     = [\<lparr>product_id = 1, location_id = 1, price = 10\<rparr>]"
    by simp
  with aspirin_run mem link first p show ?thesis by simp
qed

text \<open>
  C3. The claim says the surviving association is the last matching record. It is the
  first: every row of the table after a successful run is the association of a record at
  some position of the batch such that no earlier record resolves to the same pair.
\<close>

theorem surviving_link_is_first_match:
  "update_db db items = Inr (db', n) \<Longrightarrow> r \<in> set (location_products db') \<Longrightarrow>
   \<exists>i < length items.
     link_of (name_index (products db')) (address_index (locations db')) (items ! i) = Some r \<and>
     (\<forall>j < i. map_option link_key
                 (link_of (name_index (products db')) (address_index (locations db')) (items ! j))
               \<noteq> Some (link_key r))"
proof -
  assume run: "update_db db items = Inr (db', n)" and mem: "r \<in> set (location_products db')"
  note tab = update_db_InrD(1)[OF run]
  from links_for_first[of r "products db'" "locations db'" items] mem tab
  obtain first where
    first: "find (\<lambda>it. map_option link_key
                  (link_of (name_index (products db')) (address_index (locations db')) it)
                = Some (link_key r)) items = Some first"
      "link_of (name_index (products db')) (address_index (locations db')) first = Some r"
    by auto
  from first(1) obtain i where "i < length items" "first = items ! i"
    "\<forall>j < i. map_option link_key
                 (link_of (name_index (products db')) (address_index (locations db')) (items ! j))
               \<noteq> Some (link_key r)"
    unfolding find_Some_iff by blast
  with first(2) show ?thesis by blast
qed

theorem surviving_link_is_first_match_witness:
  "update_db empty_store aspirin_feed = Inr (aspirin_store, 1) \<and>
   \<lparr>product_id = 1, location_id = 1, price = 10\<rparr> \<in> set (location_products aspirin_store) \<and>
   (\<exists>i < length aspirin_feed.
     link_of (name_index (products aspirin_store)) (address_index (locations aspirin_store))
       (aspirin_feed ! i) = Some \<lparr>product_id = 1, location_id = 1, price = 10\<rparr> \<and>
     (\<forall>j < i. map_option link_key
                 (link_of (name_index (products aspirin_store))
                    (address_index (locations aspirin_store)) (aspirin_feed ! j))
               \<noteq> Some (link_key \<lparr>product_id = 1, location_id = 1, price = 10\<rparr>)))"
proof -
  have mem: "\<lparr>product_id = 1, location_id = 1, price = 10\<rparr> \<in> set (location_products aspirin_store)"
    by (simp add: aspirin_store_def)
  from surviving_link_is_first_match [OF aspirin_run mem] aspirin_run mem show ?thesis by blast
qed

text \<open>On the scenario's feed the last record resolving to the pair (1, 1) has price 20,
  and the table holds price 10 and no row with price 20.\<close>

theorem last_match_counterexample:
  "update_db empty_store aspirin_feed = Inr (aspirin_store, 1) \<and>
   location_products aspirin_store = [\<lparr>product_id = 1, location_id = 1, price = 10\<rparr>] \<and>
   link_of (name_index (products aspirin_store)) (address_index (locations aspirin_store))
     (last aspirin_feed) = Some \<lparr>product_id = 1, location_id = 1, price = 20\<rparr> \<and>
   \<lparr>product_id = 1, location_id = 1, price = 20\<rparr> \<notin> set (location_products aspirin_store)"
proof -
  have "link_of (name_index (products aspirin_store)) (address_index (locations aspirin_store))
     (last aspirin_feed) = Some \<lparr>product_id = 1, location_id = 1, price = 20\<rparr>"
    by code_simp
  with aspirin_run show ?thesis by (simp add: aspirin_store_def)
qed




text \<open>
  C5. Idempotence. Running \<^verbatim>\<open>update_db\<close> again, on the store a successful run left
  and with the same feed, succeeds, leaves that store unchanged and returns the same
  count.
\<close>

theorem reconcile_idempotent:
  "update_db db items = Inr (db', n) \<Longrightarrow> update_db db' items = Inr (db', n)"
proof -
  assume run: "update_db db items = Inr (db', n)"
  from update_db_succeeds obtain db'' m where run2: "update_db db' items = Inr (db'', m)"
    by blast
  from update_db_names[OF run]
  have have_p: "product_name ` set items - set (map name (products db')) = {}"
    and have_l: "location_address ` set items - set (map address (locations db')) = {}"
    by auto
  from update_db_InrD(3)[OF run2] obtain new_p where
    new_p: "products db'' = products db' @ new_p"
    "set (map name new_p) = product_name ` set items - set (map name (products db'))" by blast
  from new_p(2) have "set (map name new_p) = {}" by (simp only: have_p)
  with new_p(1) have p: "products db'' = products db'" by simp
  from update_db_InrD(4)[OF run2] obtain new_l where
    new_l: "locations db'' = locations db' @ new_l"
    "set (map address new_l) = location_address ` set items - set (map address (locations db'))"
    by blast
  from new_l(2) have "set (map address new_l) = {}" by (simp only: have_l)
  with new_l(1) have l: "locations db'' = locations db'" by simp
  have "location_products db'' = location_products db'"
    using update_db_InrD(1)[OF run2] update_db_InrD(1)[OF run] p l by simp
  with p l have "db'' = db'" by simp
  moreover have "m = n"
    using update_db_InrD(2)[OF run2] update_db_InrD(2)[OF run] \<open>db'' = db'\<close> by simp
  ultimately show ?thesis using run2 by simp
qed

theorem reconcile_idempotent_witness:
  "update_db empty_store aspirin_feed = Inr (aspirin_store, 1) \<and>
   update_db aspirin_store aspirin_feed = Inr (aspirin_store, 1)"
  using reconcile_idempotent [OF aspirin_run] aspirin_run by simp

text \<open>
  C6. The claim says every stored price is non-negative and a fractional price is
  truncated. What holds: every stored price is the integer \<^verbatim>\<open>int(item.price)\<close> of a
  record of the batch, so stored prices are non-negative when every price of the batch
  that parses is; and a float price always parses, to the integer obtained by truncating
  it towards zero.
\<close>

theorem stored_price_is_parsed_price:
  "update_db db items = Inr (db', n) \<Longrightarrow>
   (\<forall>r \<in> set (location_products db').
      \<exists>item \<in> set items. py_int (item_price item) = Some (price r)) \<and>
   ((\<forall>item \<in> set items. \<forall>v. py_int (item_price item) = Some v \<longrightarrow> 0 \<le> v) \<longrightarrow>
    (\<forall>r \<in> set (location_products db'). 0 \<le> price r)) \<and>
   (\<forall>item \<in> set items. \<forall>q. item_price item = PFloat q \<longrightarrow>
      (\<exists>v. py_int (item_price item) = Some v \<and>
           \<bar>of_int v\<bar> \<le> \<bar>q\<bar> \<and> \<bar>q\<bar> < \<bar>of_int v\<bar> + 1 \<and>
           (0 \<le> q \<longrightarrow> 0 \<le> v) \<and> (q \<le> 0 \<longrightarrow> v \<le> 0)))"
proof -
  assume run: "update_db db items = Inr (db', n)"
  note tab = update_db_InrD(1)[OF run]
  have a: "\<forall>r \<in> set (location_products db').
      \<exists>item \<in> set items. py_int (item_price item) = Some (price r)"
  proof
    fix r assume "r \<in> set (location_products db')"
    with links_for_sound[of r "products db'" "locations db'" items] tab
    obtain item where "item \<in> set items"
      "link_of (name_index (products db')) (address_index (locations db')) item = Some r"
      by auto
    with link_of_SomeD[OF this(2)] show "\<exists>item \<in> set items. py_int (item_price item) = Some (price r)"
      by blast
  qed
  then have b: "(\<forall>item \<in> set items. \<forall>v. py_int (item_price item) = Some v \<longrightarrow> 0 \<le> v) \<longrightarrow>
    (\<forall>r \<in> set (location_products db'). 0 \<le> price r)" by blast
  have c: "\<forall>item \<in> set items. \<forall>q. item_price item = PFloat q \<longrightarrow>
      (\<exists>v. py_int (item_price item) = Some v \<and>
           \<bar>of_int v\<bar> \<le> \<bar>q\<bar> \<and> \<bar>q\<bar> < \<bar>of_int v\<bar> + 1 \<and>
           (0 \<le> q \<longrightarrow> 0 \<le> v) \<and> (q \<le> 0 \<longrightarrow> v \<le> 0))"
    using py_int_float by simp
  from a b c show ?thesis by blast
qed

theorem stored_price_is_parsed_price_witness:
  "update_db empty_store
     [\<lparr>product_name = ''Aspirin'', location_address = ''Main St'', item_price = PFloat (21 / 2)\<rparr>]
   = Inr (\<lparr>products = [\<lparr>id_p = 1, name = ''Aspirin''\<rparr>],
           locations = [\<lparr>id_l = 1, address = ''Main St'', phone = None\<rparr>],
           location_products = [\<lparr>product_id = 1, location_id = 1, price = 10\<rparr>]\<rparr>, 1) \<and>
   (\<exists>item \<in> set [\<lparr>product_name = ''Aspirin'', location_address = ''Main St'',
                     item_price = PFloat (21 / 2)\<rparr>].
      py_int (item_price item) = Some 10)"
proof -
  have run: "update_db empty_store
     [\<lparr>product_name = ''Aspirin'', location_address = ''Main St'', item_price = PFloat (21 / 2)\<rparr>]
   = Inr (\<lparr>products = [\<lparr>id_p = 1, name = ''Aspirin''\<rparr>],
           locations = [\<lparr>id_l = 1, address = ''Main St'', phone = None\<rparr>],
           location_products = [\<lparr>product_id = 1, location_id = 1, price = 10\<rparr>]\<rparr>, 1)"
    by code_simp
  from stored_price_is_parsed_price [OF run] run show ?thesis by simp
qed

text \<open>The price string \<^verbatim>\<open>-5\<close> is stored as the negative integer it denotes, and the
  fractional price string \<^verbatim>\<open>10.5\<close> is not truncated: its record is skipped.\<close>

theorem negative_price_counterexample:
  "update_db empty_store
     [\<lparr>product_name = ''Aspirin'', location_address = ''Main St'', item_price = PStr ''-5''\<rparr>]
   = Inr (\<lparr>products = [\<lparr>id_p = 1, name = ''Aspirin''\<rparr>],
           locations = [\<lparr>id_l = 1, address = ''Main St'', phone = None\<rparr>],
           location_products = [\<lparr>product_id = 1, location_id = 1, price = - 5\<rparr>]\<rparr>, 1) \<and>
   update_db empty_store
     [\<lparr>product_name = ''Aspirin'', location_address = ''Main St'', item_price = PStr ''10.5''\<rparr>]
   = Inr (\<lparr>products = [\<lparr>id_p = 1, name = ''Aspirin''\<rparr>],
           locations = [\<lparr>id_l = 1, address = ''Main St'', phone = None\<rparr>],
           location_products = []\<rparr>, 0)"
  by code_simp

text \<open>
  C7. Natural keys stay unique. From a store with pairwise distinct product names and
  pairwise distinct location addresses, every run succeeds (no insertion violates a
  unique constraint) and leaves the names pairwise distinct and the addresses pairwise
  distinct, also when a name or address occurs several times in the batch or is in the
  store already.
\<close>

theorem natural_keys_stay_unique:
  "distinct (map name (products db)) \<Longrightarrow> distinct (map address (locations db)) \<Longrightarrow>
   \<exists>db' n. update_db db items = Inr (db', n) \<and>
     distinct (map name (products db')) \<and> distinct (map address (locations db'))"
proof -
  assume dp: "distinct (map name (products db))" and dl: "distinct (map address (locations db))"
  from update_db_succeeds obtain db' n where run: "update_db db items = Inr (db', n)" by blast
  from update_db_InrD(3)[OF run] obtain new_p where
    p: "products db' = products db @ new_p" "distinct (map name new_p)"
    "set (map name new_p) = product_name ` set items - set (map name (products db))" by blast
  from update_db_InrD(4)[OF run] obtain new_l where
    l: "locations db' = locations db @ new_l" "distinct (map address new_l)"
    "set (map address new_l) = location_address ` set items - set (map address (locations db))" by blast
  have "distinct (map name (products db'))" using p dp by auto
  moreover have "distinct (map address (locations db'))" using l dl by auto
  ultimately show ?thesis using run by blast
qed

theorem natural_keys_stay_unique_witness:
  "distinct (map name (products stocked_store)) \<and>
   distinct (map address (locations stocked_store)) \<and>
   update_db stocked_store
     [\<lparr>product_name = ''Aspirin'', location_address = ''Main St'', item_price = PStr ''11''\<rparr>,
      \<lparr>product_name = ''Paracetamol'', location_address = ''Oak Ave'', item_price = PStr ''5''\<rparr>,
      \<lparr>product_name = ''Paracetamol'', location_address = ''Oak Ave'', item_price = PStr ''6''\<rparr>,
      \<lparr>product_name = ''Paracetamol'', location_address = ''Main St'', item_price = PStr ''4''\<rparr>]
   = Inr (\<lparr>products = [\<lparr>id_p = 1, name = ''Aspirin''\<rparr>, \<lparr>id_p = 2, name = ''Ibuprofen''\<rparr>,
                       \<lparr>id_p = 3, name = ''Paracetamol''\<rparr>],
           locations = [\<lparr>id_l = 1, address = ''Main St'', phone = None\<rparr>,
                        \<lparr>id_l = 2, address = ''Oak Ave'', phone = None\<rparr>],
           location_products = [\<lparr>product_id = 1, location_id = 1, price = 11\<rparr>,
                                \<lparr>product_id = 3, location_id = 2, price = 5\<rparr>,
                                \<lparr>product_id = 3, location_id = 1, price = 4\<rparr>]\<rparr>, 3) \<and>
   (\<exists>db' n. update_db stocked_store
     [\<lparr>product_name = ''Aspirin'', location_address = ''Main St'', item_price = PStr ''11''\<rparr>,
      \<lparr>product_name = ''Paracetamol'', location_address = ''Oak Ave'', item_price = PStr ''5''\<rparr>,
      \<lparr>product_name = ''Paracetamol'', location_address = ''Oak Ave'', item_price = PStr ''6''\<rparr>,
      \<lparr>product_name = ''Paracetamol'', location_address = ''Main St'', item_price = PStr ''4''\<rparr>]
     = Inr (db', n) \<and>
     distinct (map name (products db')) \<and> distinct (map address (locations db')))"
proof -
  have h1: "distinct (map name (products stocked_store))" by (simp add: stocked_store_def)
  have h2: "distinct (map address (locations stocked_store))" by (simp add: stocked_store_def)
  have run: "update_db stocked_store
     [\<lparr>product_name = ''Aspirin'', location_address = ''Main St'', item_price = PStr ''11''\<rparr>,
      \<lparr>product_name = ''Paracetamol'', location_address = ''Oak Ave'', item_price = PStr ''5''\<rparr>,
      \<lparr>product_name = ''Paracetamol'', location_address = ''Oak Ave'', item_price = PStr ''6''\<rparr>,
      \<lparr>product_name = ''Paracetamol'', location_address = ''Main St'', item_price = PStr ''4''\<rparr>]
   = Inr (\<lparr>products = [\<lparr>id_p = 1, name = ''Aspirin''\<rparr>, \<lparr>id_p = 2, name = ''Ibuprofen''\<rparr>,
                       \<lparr>id_p = 3, name = ''Paracetamol''\<rparr>],
           locations = [\<lparr>id_l = 1, address = ''Main St'', phone = None\<rparr>,
                        \<lparr>id_l = 2, address = ''Oak Ave'', phone = None\<rparr>],
           location_products = [\<lparr>product_id = 1, location_id = 1, price = 11\<rparr>,
                                \<lparr>product_id = 3, location_id = 2, price = 5\<rparr>,
                                \<lparr>product_id = 3, location_id = 1, price = 4\<rparr>]\<rparr>, 3)"
    by code_simp
  from natural_keys_stay_unique [OF h1 h2] h1 h2 run show ?thesis by blast
qed



text \<open>
  C9. Trim asymmetry. After a successful run the stored names are those stored before
  together with the names of the batch as they are written, untrimmed, and likewise the
  addresses. A record whose stripped name is no stored name, or whose stripped address is
  no stored address, gives no association: the second loop run over the batch without
  that record builds the same table and the same count.
\<close>

theorem trim_asymmetry:
  "update_db db items = Inr (db', n) \<Longrightarrow> item \<in> set items \<Longrightarrow>
   set (map name (products db')) = set (map name (products db)) \<union> product_name ` set items \<and>
   set (map address (locations db'))
     = set (map address (locations db)) \<union> location_address ` set items \<and>
   (strip (product_name item) \<notin> set (map name (products db')) \<or>
    strip (location_address item) \<notin> set (map address (locations db')) \<longrightarrow>
      link_of (name_index (products db')) (address_index (locations db')) item = None \<and>
      (\<forall>xs ys. items = xs @ item # ys \<longrightarrow>
         snd (build_links (name_index (products db')) (address_index (locations db'))
                (xs @ ys) ({}, [], 0)) = (location_products db', n)))"
proof -
  assume run: "update_db db items = Inr (db', n)" and mem: "item \<in> set items"
  note tab = update_db_InrD(1)[OF run] and cnt = update_db_InrD(2)[OF run]
  have skip: "link_of (name_index (products db')) (address_index (locations db')) item = None \<and>
      (\<forall>xs ys. items = xs @ item # ys \<longrightarrow>
         snd (build_links (name_index (products db')) (address_index (locations db'))
                (xs @ ys) ({}, [], 0)) = (location_products db', n))"
    if un: "strip (product_name item) \<notin> set (map name (products db')) \<or>
    strip (location_address item) \<notin> set (map address (locations db'))"
  proof -
    from link_of_unresolved[OF un]
    have none: "link_of (name_index (products db')) (address_index (locations db')) item = None" .
    have "snd (build_links (name_index (products db')) (address_index (locations db'))
                (xs @ ys) ({}, [], 0)) = (location_products db', n)"
      if "items = xs @ item # ys" for xs ys
      using links_for_skip[OF none, of xs ys] that tab cnt
      by (simp add: build_links_links_for)
    with none show ?thesis by blast
  qed
  from update_db_names[OF run] skip show ?thesis by blast
qed

theorem trim_asymmetry_witness:
  "update_db empty_store
     [\<lparr>product_name = '' Aspirin'', location_address = ''Main St'', item_price = PStr ''10''\<rparr>]
   = Inr (\<lparr>products = [\<lparr>id_p = 1, name = '' Aspirin''\<rparr>],
           locations = [\<lparr>id_l = 1, address = ''Main St'', phone = None\<rparr>],
           location_products = []\<rparr>, 0) \<and>
   strip '' Aspirin'' = ''Aspirin'' \<and>
   strip '' Aspirin'' \<notin> set (map name [\<lparr>id_p = 1, name = '' Aspirin''\<rparr>]) \<and>
   link_of (name_index [\<lparr>id_p = 1, name = '' Aspirin''\<rparr>])
     (address_index [\<lparr>id_l = 1, address = ''Main St'', phone = None\<rparr>])
     \<lparr>product_name = '' Aspirin'', location_address = ''Main St'', item_price = PStr ''10''\<rparr>
   = None"
proof -
  let ?item = "\<lparr>product_name = '' Aspirin'', location_address = ''Main St'', item_price = PStr ''10''\<rparr>"
  have run: "update_db empty_store [?item]
   = Inr (\<lparr>products = [\<lparr>id_p = 1, name = '' Aspirin''\<rparr>],
           locations = [\<lparr>id_l = 1, address = ''Main St'', phone = None\<rparr>],
           location_products = []\<rparr>, 0)"
    by code_simp
  have mem: "?item \<in> set [?item]" by simp
  have s: "strip '' Aspirin'' = ''Aspirin''" by code_simp
  then have un: "strip '' Aspirin'' \<notin> set (map name [\<lparr>id_p = 1, name = '' Aspirin''\<rparr>])"
    by simp
  from trim_asymmetry [OF run mem] un
  have "link_of (name_index [\<lparr>id_p = 1, name = '' Aspirin''\<rparr>])
     (address_index [\<lparr>id_l = 1, address = ''Main St'', phone = None\<rparr>]) ?item = None"
    by simp
  with run s un show ?thesis by blast
qed

text \<open>
  C10. \<^verbatim>\<open>get_all_products\<close> returns the absent result exactly when the store holds
  no product; any sequence it returns is non-empty and lists the name of every product
  row, in table order.
\<close>

theorem get_all_products_absent_iff_empty:
  "(get_all_products db = None) = (products db = []) \<and>
   (get_all_products db \<noteq> Some []) \<and>
   (get_all_products db = (if products db = [] then None else Some (map name (products db))))"
  by (simp add: get_all_products_def Let_def)

theorem get_all_products_witness:
  "get_all_products empty_store = None \<and>
   get_all_products \<lparr>products = [\<lparr>id_p = 1, name = ''Aspirin''\<rparr>], locations = [],
                      location_products = []\<rparr> = Some [''Aspirin'']"
  using get_all_products_absent_iff_empty [of empty_store]
    get_all_products_absent_iff_empty
      [of "\<lparr>products = [\<lparr>id_p = 1, name = ''Aspirin''\<rparr>], locations = [],
            location_products = []\<rparr>"]
  by (simp add: empty_store_def)

end
